theory Spec2Isabelle
  imports Main "HOL-Library.Sublist" "HOL-Library.Word"
begin

section \<open>Python strings\<close>

text \<open>
  A Python \<^verbatim>\<open>str\<close> is a sequence of Unicode code points; a code point is a natural
  number. \<open>py\<close> turns an ASCII literal into such a sequence.
\<close>

type_synonym pystr = "nat list"

definition py :: "string \<Rightarrow> pystr" where
  "py s = map of_char s"

text \<open>
  \<^verbatim>\<open>str.isspace\<close> for one code point: the code points CPython treats as whitespace
  (bidirectional class WS, B or S, or category Zs).
\<close>

definition isspace :: "nat \<Rightarrow> bool" where
  "isspace c \<longleftrightarrow>
     (9 \<le> c \<and> c \<le> 13) \<or> (28 \<le> c \<and> c \<le> 32) \<or> c = 133 \<or> c = 160 \<or> c = 5760 \<or>
     (8192 \<le> c \<and> c \<le> 8202) \<or> c = 8232 \<or> c = 8233 \<or> c = 8239 \<or> c = 8287 \<or> c = 12288"

text \<open>\<^verbatim>\<open>str.strip()\<close> without argument: leading and trailing whitespace removed.\<close>

definition lstrip :: "pystr \<Rightarrow> pystr" where
  "lstrip s = dropWhile isspace s"

definition rstrip :: "pystr \<Rightarrow> pystr" where
  "rstrip s = rev (dropWhile isspace (rev s))"

definition strip :: "pystr \<Rightarrow> pystr" where
  "strip s = rstrip (lstrip s)"

text \<open>\<^verbatim>\<open>sub in s\<close>: \<open>sub\<close> occurs in \<open>s\<close> as a contiguous run.\<close>

fun contains :: "'a list \<Rightarrow> 'a list \<Rightarrow> bool" where
  "contains sub [] \<longleftrightarrow> sub = []"
| "contains sub (c # cs) \<longleftrightarrow> prefix sub (c # cs) \<or> contains sub cs"

text \<open>
  \<^verbatim>\<open>s.replace(old, new)\<close>: one pass from the left over \<open>s\<close>; at each occurrence of
  \<open>old\<close> the replacement is written and the scan goes on behind the occurrence, so the
  text written so far is never looked at again. (With an empty \<open>old\<close>, Python puts
  \<open>new\<close> before every character and at the end.)
\<close>

fun replace :: "'a list \<Rightarrow> 'a list \<Rightarrow> 'a list \<Rightarrow> 'a list" where
  "replace old new [] = (if old = [] then new else [])"
| "replace old new (c # cs) =
     (if old = [] then new @ c # replace old new cs
      else if prefix old (c # cs) then new @ replace old new (drop (length old - 1) cs)
      else c # replace old new cs)"

section \<open>The calls' environment\<close>

text \<open>
  A run is the loop of one call (\<^verbatim>\<open>AgentCall._conversation_loop\<close> or
  \<^verbatim>\<open>TranscriptionCall._transcription_loop\<close>) against a script: for each iteration,
  what the collaborators answer and whether the remote party hangs up meanwhile. The
  greeting, which \<^verbatim>\<open>onCallState\<close> starts as a task of its own, and other calls of the
  same process are not part of a run.

  A Python exception is an instance of \<^verbatim>\<open>Exception\<close> (what every service error is, and
  what \<^verbatim>\<open>except Exception\<close> catches), or of \<^verbatim>\<open>BaseException\<close> only (task
  cancellation, keyboard interrupt, interpreter exit), which \<^verbatim>\<open>except Exception\<close>
  lets through. The string is the message.
\<close>

datatype exn = Exc string | BaseExc string

fun is_Exception :: "exn \<Rightarrow> bool" where
  "is_Exception (Exc m) = True"
| "is_Exception (BaseExc m) = False"

fun message :: "exn \<Rightarrow> string" where
  "message (Exc m) = m"
| "message (BaseExc m) = m"

text \<open>What a call to an external collaborator does: it returns a value or raises.\<close>

datatype 'a reply = Ok 'a | Raise exn

type_synonym bytes = "8 word list"

text \<open>
  \<open>Wav samples\<close> stands for the bytes of the RIFF/WAVE file that the \<^verbatim>\<open>wave\<close> module
  writes around the samples (mono, 2 bytes per sample, 16000 frames per second). The
  file starts with its header, so it is never the empty byte string: only \<^verbatim>\<open>None\<close>
  is falsy among the results of the capture functions.
\<close>

datatype audio = Wav bytes

datatype role = System | User | Assistant

type_synonym chat_message = "role \<times> pystr"

text \<open>
  What a push to the transcript sink can be given as an argument. The loop gives it the
  text; the other two are what the interface of the sink is described with.
\<close>

datatype sink_arg = Handle_arg | Text_arg pystr | Timestamp_arg nat

text \<open>
  The points of an iteration at which the call-state callback can clear the flag: the
  stages in which the loop waits for a collaborator or sleeps (and, in the transcription
  loop, the reading of the recorder, during which the signalling stack's own thread can
  run the callback).
\<close>

datatype stage = Capture | Transcribe | Plan | Synthesize | Play | EndPause | ErrorPause
  | IdlePause | Push

text \<open>
  The effects of a call that can be seen from outside, in the order they happen. An
  action is recorded when the call is made, whether it then returns or raises;
  \<open>Log_error\<close> is \<^verbatim>\<open>logger.error\<close> and \<open>Call_ended\<close> the callback that clears the flag.
  Durations are in milliseconds (\<^verbatim>\<open>asyncio.sleep(1)\<close> is \<open>Sleep 1000\<close>).
\<close>

datatype action =
    Sleep nat
  | Transcriptions_create audio
  | Chat_create "chat_message list"
  | Speech_create pystr
  | Tmp_write bytes
  | Start_player
  | Unlink
  | Hangup
  | Send_transcript "sink_arg list"
  | Log_error string
  | Call_ended

text \<open>
  The environment's part in one iteration of either loop: the outcome of each external
  call the iteration can make (each is made at most once per iteration), and the stage,
  if any, during which the signalling stack reports \<^verbatim>\<open>PJSIP_INV_STATE_DISCONNECTED\<close>.
  \<^item> \<open>samples_r\<close>: \<^verbatim>\<open>self.recorder.getData()\<close>; the empty list stands for a falsy result;
  \<^item> \<open>stt_r\<close>: \<^verbatim>\<open>openai.audio.transcriptions.create\<close>, the \<^verbatim>\<open>text\<close> of the response;
  \<^item> \<open>gen_r\<close>: \<^verbatim>\<open>openai.chat.completions.create\<close>, the \<^verbatim>\<open>message.content\<close> of each
    choice (\<open>None\<close> where the content is \<^verbatim>\<open>None\<close>);
  \<^item> \<open>tts_r\<close>: \<^verbatim>\<open>openai.audio.speech.create\<close>, the \<^verbatim>\<open>content\<close> of the response;
  \<^item> \<open>tmp_r\<close>: writing the temporary file; \<open>play_r\<close>: \<^verbatim>\<open>createPlayer\<close> and
    \<^verbatim>\<open>startTransmit\<close>; \<open>unlink_r\<close>: \<^verbatim>\<open>os.unlink\<close>; \<open>hangup_r\<close>: \<^verbatim>\<open>self.hangup\<close>;
  \<^item> \<open>send_r\<close>: \<^verbatim>\<open>ws_sender.send_transcript\<close>.
\<close>

record turn =
  samples_r :: "bytes reply"
  stt_r :: "pystr reply"
  gen_r :: "pystr option list reply"
  tts_r :: "bytes reply"
  tmp_r :: "unit reply"
  play_r :: "unit reply"
  unlink_r :: "unit reply"
  hangup_r :: "unit reply"
  send_r :: "unit reply"
  disc :: "stage option"

section \<open>Calls\<close>

text \<open>The part both call classes share: the effects so far.\<close>

record call =
  trace :: "action list"

definition emit :: "action \<Rightarrow> 'a call_scheme \<Rightarrow> 'a call_scheme" where
  "emit a s = s\<lparr>trace := trace s @ [a]\<rparr>"

text \<open>
  The result of a function that can raise: the exception or the value, and the call
  as the function leaves it.
\<close>

type_synonym ('a, 's) result = "(exn + 'a) \<times> 's"

definition and_then :: "('a, 's) result \<Rightarrow> ('a \<Rightarrow> 's \<Rightarrow> ('b, 's) result) \<Rightarrow> ('b, 's) result" where
  "and_then m f = (case m of (Inl e, s) \<Rightarrow> (Inl e, s) | (Inr a, s) \<Rightarrow> f a s)"

text \<open>
  \<^verbatim>\<open>except Exception as e: logger.error(f"<what>: {e}"); return <fallback>\<close>
\<close>

definition except_Exception :: "string \<Rightarrow> 'a \<Rightarrow> exn \<Rightarrow> 's call_scheme \<Rightarrow> ('a, 's call_scheme) result" where
  "except_Exception what fallback e s =
     (if is_Exception e then (Inr fallback, emit (Log_error (what @ '': '' @ message e)) s)
      else (Inl e, s))"

section \<open>AgentCall\<close>

record agent_call = call +
  system_prompt :: pystr
  player :: bool
  conversation_history :: "chat_message list"
  is_active :: bool

text \<open>\<^verbatim>\<open>onCallState\<close> at \<^verbatim>\<open>PJSIP_INV_STATE_DISCONNECTED\<close>, run while the loop waits in \<open>st\<close>.\<close>

definition onCallState :: "stage \<Rightarrow> turn \<Rightarrow> agent_call \<Rightarrow> agent_call" where
  "onCallState st t s =
     (if disc t = Some st then (emit Call_ended s)\<lparr>is_active := False\<rparr> else s)"

definition listen_for_speech :: "turn \<Rightarrow> agent_call \<Rightarrow> (audio option, agent_call) result" where
  "listen_for_speech t s =
     (let s1 = onCallState Capture t (emit (Sleep 10000) s) in
      case samples_r t of
        Raise e \<Rightarrow> except_Exception ''Listen error'' None e s1
      | Ok samples \<Rightarrow>
          if samples = [] then (Inr None, s1) else (Inr (Some (Wav samples)), s1))"

definition transcribe :: "turn \<Rightarrow> audio \<Rightarrow> agent_call \<Rightarrow> (pystr option, agent_call) result" where
  "transcribe t audio_data s =
     (let s1 = onCallState Transcribe t (emit (Transcriptions_create audio_data) s) in
      case stt_r t of
        Raise e \<Rightarrow> except_Exception ''Transcription error'' None e s1
      | Ok text \<Rightarrow> (Inr (Some (strip text)), s1))"

definition sentinel :: pystr where
  "sentinel = py ''[ENDE]''"

definition apology :: pystr where
  "apology = py ''Es tut mir leid, es gab einen technischen Fehler.''"

definition generate_response :: "turn \<Rightarrow> agent_call \<Rightarrow> (pystr \<times> bool, agent_call) result" where
  "generate_response t s =
     (let messages = (System, system_prompt s) # conversation_history s;
          s1 = onCallState Plan t (emit (Chat_create messages) s);
          handler = except_Exception ''GPT error'' (apology, True)
      in case gen_r t of
        Raise e \<Rightarrow> handler e s1
      | Ok [] \<Rightarrow> handler (Exc ''list index out of range'') s1
      | Ok (None # _) \<Rightarrow>
          handler (Exc (CHR 0x27 # ''NoneType' object has no attribute 'strip'' @ [CHR 0x27])) s1
      | Ok (Some content # _) \<Rightarrow>
          (let response_text = strip content;
               should_end = contains sentinel response_text;
               response_text = strip (replace sentinel [] response_text)
           in (Inr (response_text, should_end), s1)))"

text \<open>
  \<^verbatim>\<open>_speak\<close>: the whole body is inside one \<^verbatim>\<open>try\<close>; whatever step raises an
  \<^verbatim>\<open>Exception\<close>, the rest of the body is skipped and the error is logged. The wait
  after starting the player is \<^verbatim>\<open>len(text) * 0.1\<close> seconds.
\<close>

definition speak_body :: "turn \<Rightarrow> pystr \<Rightarrow> agent_call \<Rightarrow> (unit, agent_call) result" where
  "speak_body t text s =
     (let s1 = onCallState Synthesize t (emit (Speech_create text) s) in
      case tts_r t of
        Raise e \<Rightarrow> (Inl e, s1)
      | Ok audio_data \<Rightarrow>
          (let s2 = emit (Tmp_write audio_data) s1 in
           case tmp_r t of
             Raise e \<Rightarrow> (Inl e, s2)
           | Ok _ \<Rightarrow>
               and_then
                 (if player s2 then
                    (let s3 = emit Start_player s2 in
                     case play_r t of
                       Raise e \<Rightarrow> (Inl e, s3)
                     | Ok _ \<Rightarrow>
                         (Inr (), onCallState Play t (emit (Sleep (length text * 100)) s3)))
                  else (Inr (), s2))
                 (\<lambda>_ s4. case unlink_r t of
                      Raise e \<Rightarrow> (Inl e, emit Unlink s4)
                    | Ok _ \<Rightarrow> (Inr (), emit Unlink s4))))"

definition speak :: "turn \<Rightarrow> pystr \<Rightarrow> agent_call \<Rightarrow> (unit, agent_call) result" where
  "speak t text s =
     (case speak_body t text s of
        (Inl e, s1) \<Rightarrow> except_Exception ''TTS error'' () e s1
      | (Inr u, s1) \<Rightarrow> (Inr u, s1))"

definition reprompt_no_audio :: pystr where
  "reprompt_no_audio = py ''Ich habe Sie nicht verstanden. Bitte wiederholen Sie.''"

definition reprompt_no_text :: pystr where
  "reprompt_no_text = py ''Entschuldigung, ich habe Sie nicht verstanden.''"

text \<open>How one pass through the body of a \<^verbatim>\<open>while\<close> loop ends.\<close>

datatype ctl = Continue | Break

text \<open>The body of the \<^verbatim>\<open>try\<close> in \<^verbatim>\<open>_conversation_loop\<close>.\<close>

definition conversation_body :: "turn \<Rightarrow> agent_call \<Rightarrow> (ctl, agent_call) result" where
  "conversation_body t s =
     and_then (listen_for_speech t s) (\<lambda>audio_data s.
       case audio_data of
         None \<Rightarrow> and_then (speak t reprompt_no_audio s) (\<lambda>_ s. (Inr Continue, s))
       | Some wav \<Rightarrow>
           and_then (transcribe t wav s) (\<lambda>user_text s.
             if user_text = None \<or> user_text = Some [] then
               and_then (speak t reprompt_no_text s) (\<lambda>_ s. (Inr Continue, s))
             else
               and_then
                 (generate_response t
                    (s\<lparr>conversation_history :=
                         conversation_history s @ [(User, the user_text)]\<rparr>))
                 (\<lambda>(response_text, should_end) s.
                    and_then
                      (speak t response_text
                         (s\<lparr>conversation_history :=
                              conversation_history s @ [(Assistant, response_text)]\<rparr>))
                      (\<lambda>_ s.
                         if should_end then
                           (let s1 = onCallState EndPause t (emit (Sleep 1000) s) in
                            case hangup_r t of
                              Raise e \<Rightarrow> (Inl e, emit Hangup s1)
                            | Ok _ \<Rightarrow> (Inr Break, emit Hangup s1))
                         else (Inr Continue, s)))))"

text \<open>
  One iteration: the body, and the handler
  \<^verbatim>\<open>except Exception as e: logger.error(...); await asyncio.sleep(1)\<close>,
  after which the loop goes on with its condition.
\<close>

definition conversation_turn :: "turn \<Rightarrow> agent_call \<Rightarrow> (ctl, agent_call) result" where
  "conversation_turn t s =
     (case conversation_body t s of
        (Inl e, s1) \<Rightarrow>
          and_then (except_Exception ''Conversation loop error'' Continue e s1)
            (\<lambda>c s2. (Inr c, onCallState ErrorPause t (emit (Sleep 1000) s2)))
      | (Inr c, s1) \<Rightarrow> (Inr c, s1))"

text \<open>
  How a run of a loop over a finite script ends: the loop has left the \<^verbatim>\<open>while\<close>
  (\<open>Exited\<close>), it is about to start an iteration for which the script has no entry
  (\<open>Running\<close>), or an exception has left the loop and ended its task (\<open>Crashed\<close>).
\<close>

datatype loop_status = Exited | Running | Crashed exn

text \<open>\<^verbatim>\<open>_conversation_loop\<close>: \<^verbatim>\<open>while self.is_active: try: ... except Exception: ...\<close>\<close>

fun conversation_loop :: "turn list \<Rightarrow> agent_call \<Rightarrow> loop_status \<times> agent_call" where
  "conversation_loop [] s = (if is_active s then Running else Exited, s)"
| "conversation_loop (t # ts) s =
     (if \<not> is_active s then (Exited, s)
      else case conversation_turn t s of
        (Inl e, s1) \<Rightarrow> (Crashed e, s1)
      | (Inr Break, s1) \<Rightarrow> (Exited, s1)
      | (Inr Continue, s1) \<Rightarrow> conversation_loop ts s1)"

section \<open>TranscriptionCall\<close>

record transcription_call = call +
  is_recording :: bool

text \<open>\<^verbatim>\<open>onCallState\<close> of the transcription call at \<^verbatim>\<open>PJSIP_INV_STATE_DISCONNECTED\<close>.\<close>

definition onCallState_t :: "stage \<Rightarrow> turn \<Rightarrow> transcription_call \<Rightarrow> transcription_call" where
  "onCallState_t st t s =
     (if disc t = Some st then (emit Call_ended s)\<lparr>is_recording := False\<rparr> else s)"

definition get_audio_chunk :: "turn \<Rightarrow> transcription_call \<Rightarrow> (audio option, transcription_call) result" where
  "get_audio_chunk t s =
     (let s1 = onCallState_t Capture t s in
      case samples_r t of
        Raise e \<Rightarrow> except_Exception ''Audio chunk error'' None e s1
      | Ok samples \<Rightarrow>
          if samples = [] then (Inr None, s1) else (Inr (Some (Wav samples)), s1))"

definition transcribe_audio :: "turn \<Rightarrow> audio \<Rightarrow> transcription_call \<Rightarrow> (pystr option, transcription_call) result" where
  "transcribe_audio t audio_data s =
     (let s1 = onCallState_t Transcribe t (emit (Transcriptions_create audio_data) s) in
      case stt_r t of
        Raise e \<Rightarrow> except_Exception ''Whisper API error'' None e s1
      | Ok text \<Rightarrow> (Inr (Some (strip text)), s1))"

text \<open>The body of the \<^verbatim>\<open>try\<close> in \<^verbatim>\<open>_transcription_loop\<close>.\<close>

definition transcription_body :: "turn \<Rightarrow> transcription_call \<Rightarrow> (ctl, transcription_call) result" where
  "transcription_body t s =
     and_then (get_audio_chunk t s) (\<lambda>audio_data s.
       case audio_data of
         None \<Rightarrow> (Inr Continue, onCallState_t IdlePause t (emit (Sleep 100) s))
       | Some wav \<Rightarrow>
           and_then (transcribe_audio t wav s) (\<lambda>transcript s.
             if transcript \<noteq> None \<and> transcript \<noteq> Some [] then
               (let s1 = onCallState_t Push t
                           (emit (Send_transcript [Text_arg (the transcript)]) s) in
                case send_r t of
                  Raise e \<Rightarrow> (Inl e, s1)
                | Ok _ \<Rightarrow> (Inr Continue, s1))
             else (Inr Continue, s)))"

definition transcription_turn :: "turn \<Rightarrow> transcription_call \<Rightarrow> (ctl, transcription_call) result" where
  "transcription_turn t s =
     (case transcription_body t s of
        (Inl e, s1) \<Rightarrow>
          and_then (except_Exception ''Transcription error'' Continue e s1)
            (\<lambda>c s2. (Inr c, onCallState_t ErrorPause t (emit (Sleep 1000) s2)))
      | (Inr c, s1) \<Rightarrow> (Inr c, s1))"

text \<open>\<^verbatim>\<open>_transcription_loop\<close>: \<^verbatim>\<open>while self.is_recording: try: ... except Exception: ...\<close>\<close>

fun transcription_loop :: "turn list \<Rightarrow> transcription_call \<Rightarrow> loop_status \<times> transcription_call" where
  "transcription_loop [] s = (if is_recording s then Running else Exited, s)"
| "transcription_loop (t # ts) s =
     (if \<not> is_recording s then (Exited, s)
      else case transcription_turn t s of
        (Inl e, s1) \<Rightarrow> (Crashed e, s1)
      | (Inr Break, s1) \<Rightarrow> (Exited, s1)
      | (Inr Continue, s1) \<Rightarrow> transcription_loop ts s1)"

section \<open>Vocabulary of the properties\<close>

text \<open>
  A reply that the nearest \<^verbatim>\<open>except Exception\<close> deals with: a value, or an instance of
  \<^verbatim>\<open>Exception\<close>.
\<close>

fun caught :: "'a reply \<Rightarrow> bool" where
  "caught (Ok v) = True"
| "caught (Raise e) = is_Exception e"

definition speak_caught :: "turn \<Rightarrow> bool" where
  "speak_caught t \<longleftrightarrow>
     caught (tts_r t) \<and> caught (tmp_r t) \<and> caught (play_r t) \<and> caught (unlink_r t)"

definition raises_only_Exception :: "turn \<Rightarrow> bool" where
  "raises_only_Exception t \<longleftrightarrow>
     caught (samples_r t) \<and> caught (stt_r t) \<and> caught (gen_r t) \<and> speak_caught t \<and>
     caught (hangup_r t) \<and> caught (send_r t)"

text \<open>The capture yields nothing: no samples, or reading them fails.\<close>

fun no_audio :: "bytes reply \<Rightarrow> bool" where
  "no_audio (Ok samples) \<longleftrightarrow> samples = []"
| "no_audio (Raise e) \<longleftrightarrow> is_Exception e"

text \<open>What \<^verbatim>\<open>_listen_for_speech\<close> and \<^verbatim>\<open>_get_audio_chunk\<close> make of the recorder's reply.\<close>

fun captured :: "bytes reply \<Rightarrow> audio option" where
  "captured (Ok samples) = (if samples = [] then None else Some (Wav samples))"
| "captured (Raise e) = None"

text \<open>A call that raises an \<^verbatim>\<open>Exception\<close>.\<close>

fun failed :: "'a reply \<Rightarrow> bool" where
  "failed (Ok v) \<longleftrightarrow> False"
| "failed (Raise e) \<longleftrightarrow> is_Exception e"

text \<open>The transcription gives no usable text: it fails, or its text is blank.\<close>

fun no_text :: "pystr reply \<Rightarrow> bool" where
  "no_text (Ok text) \<longleftrightarrow> strip text = []"
| "no_text (Raise e) \<longleftrightarrow> is_Exception e"

text \<open>The text the loops go on with, if the transcription gives one.\<close>

fun heard :: "pystr reply \<Rightarrow> pystr option" where
  "heard (Ok text) = (if strip text = [] then None else Some (strip text))"
| "heard (Raise e) = None"

text \<open>
  An iteration of silence alone: nothing is captured, the call stays up, and the task
  is not cancelled while the re-prompt is spoken.
\<close>

definition silent :: "turn \<Rightarrow> bool" where
  "silent t \<longleftrightarrow> no_audio (samples_r t) \<and> speak_caught t \<and> disc t = None"

text \<open>
  An iteration in which speech is captured and its transcription fails, while the call
  stays up.
\<close>

definition transcription_fails :: "turn \<Rightarrow> bool" where
  "transcription_fails t \<longleftrightarrow>
     captured (samples_r t) \<noteq> None \<and> failed (stt_r t) \<and> speak_caught t \<and> disc t = None"

text \<open>
  The generation fails inside the \<^verbatim>\<open>try\<close> of \<^verbatim>\<open>_generate_response\<close>: the service
  raises, the response has no choice, or the first choice has no content.
\<close>

fun generation_failed :: "pystr option list reply \<Rightarrow> bool" where
  "generation_failed (Raise e) \<longleftrightarrow> is_Exception e"
| "generation_failed (Ok []) \<longleftrightarrow> True"
| "generation_failed (Ok (None # cs)) \<longleftrightarrow> True"
| "generation_failed (Ok (Some content # cs)) \<longleftrightarrow> False"

text \<open>
  The actions that are not a request to a service, to the sink or to the signalling
  stack: waiting, files, the player, logging, and the callback.
\<close>

fun housekeeping :: "action \<Rightarrow> bool" where
  "housekeeping (Transcriptions_create a) = False"
| "housekeeping (Chat_create m) = False"
| "housekeeping (Speech_create x) = False"
| "housekeeping Hangup = False"
| "housekeeping (Send_transcript x) = False"
| "housekeeping a = True"

definition requests :: "action list \<Rightarrow> action list" where
  "requests tr = filter (\<lambda>a. \<not> housekeeping a) tr"

text \<open>A trace without the entries of the call-state callback: what the loop itself does.\<close>

definition without_callback :: "action list \<Rightarrow> action list" where
  "without_callback tr = filter (\<lambda>a. a \<noteq> Call_ended) tr"

text \<open>
  An agent call with everything the callback touches wiped out: the flag, and the
  callback's entries in the trace. Two results are alike when they return or raise the
  same and leave calls that differ in nothing but that.
\<close>

definition erase :: "agent_call \<Rightarrow> agent_call" where
  "erase s = s\<lparr>trace := without_callback (trace s), is_active := True\<rparr>"

definition alike :: "('a, agent_call) result \<Rightarrow> ('a, agent_call) result \<Rightarrow> bool" where
  "alike m m' \<longleftrightarrow> fst m = fst m' \<and> erase (snd m) = erase (snd m')"

section \<open>Scenarios\<close>

definition call0 :: agent_call where
  "call0 = \<lparr>trace = [],
     system_prompt = py ''Du bist ein freundlicher Mitarbeiter beim Stadtwerk.'',
     player = True, conversation_history = [], is_active = True\<rparr>"

definition monitor0 :: transcription_call where
  "monitor0 = \<lparr>trace = [], is_recording = True\<rparr>"

text \<open>An iteration in which nothing is captured, nothing fails and the call stays up.\<close>

definition quiet :: turn where
  "quiet = \<lparr>samples_r = Ok [], stt_r = Ok [], gen_r = Ok [], tts_r = Ok [3, 4],
     tmp_r = Ok (), play_r = Ok (), unlink_r = Ok (), hangup_r = Ok (), send_r = Ok (),
     disc = None\<rparr>"

text \<open>The caller says "Hallo", and the agent answers.\<close>

definition hallo :: turn where
  "hallo = quiet\<lparr>samples_r := Ok [1, 2], stt_r := Ok (py ''Hallo ''),
     gen_r := Ok [Some (py ''Gern.'')]\<rparr>"

text \<open>The same, and the remote party hangs up while the window is captured.\<close>

definition hangup_in_capture :: turn where
  "hangup_in_capture = hallo\<lparr>disc := Some Capture\<rparr>"

text \<open>The generation service nests the marker in its answer.\<close>

definition nested_marker :: turn where
  "nested_marker = hallo\<lparr>gen_r := Ok [Some (py ''Auf Wiederhoeren. [EN[ENDE]DE]'')]\<rparr>"

text \<open>Collaborators that are down.\<close>

definition recorder_down :: turn where
  "recorder_down = quiet\<lparr>samples_r := Raise (Exc ''recorder has no data'')\<rparr>"

definition stt_down :: turn where
  "stt_down = hallo\<lparr>stt_r := Raise (Exc ''Request timed out.'')\<rparr>"

definition gen_down :: turn where
  "gen_down = hallo\<lparr>gen_r := Raise (Exc ''Rate limit reached'')\<rparr>"

definition tts_down :: turn where
  "tts_down = quiet\<lparr>tts_r := Raise (Exc ''Connection error.'')\<rparr>"

text \<open>The generation is down, and so is the signalling stack when the agent hangs up.\<close>

definition hangup_fails :: turn where
  "hangup_fails = gen_down\<lparr>hangup_r := Raise (Exc ''Invalid operation'')\<rparr>"

text \<open>The transcription of the captured window is blank.\<close>

definition blank :: turn where
  "blank = hallo\<lparr>stt_r := Ok (py ''  '')\<rparr>"

section \<open>Strings\<close>

lemmas string_defs = py_def strip_def lstrip_def rstrip_def isspace_def sentinel_def

lemma contains_sublist: "contains sub s = sublist sub s"
  by (induction s) (simp_all add: sublist_Cons_right)

lemma sublist_dropWhile_keeps:
  assumes "sublist xs ys" and "xs \<noteq> []" and "\<not> P (hd xs)"
  shows "sublist xs (dropWhile P ys)"
  using assms
proof (induction ys)
  case Nil
  then show ?case by simp
next
  case (Cons y ys)
  show ?case
  proof (cases "P y")
    case True
    with Cons.prems have "\<not> prefix xs (y # ys)"
      by (cases xs) auto
    with Cons.prems have "sublist xs ys"
      by (simp add: sublist_Cons_right)
    with Cons True show ?thesis by simp
  next
    case False
    with Cons.prems show ?thesis by simp
  qed
qed

text \<open>Stripping the text cannot hide the marker: the marker has no blank at its ends.\<close>

lemma contains_sentinel_strip:
  assumes "contains sentinel content"
  shows "contains sentinel (strip content)"
proof -
  have ends: "sentinel \<noteq> []" "\<not> isspace (hd sentinel)" "\<not> isspace (hd (rev sentinel))"
    by (simp_all add: sentinel_def py_def isspace_def)
  from assms have "sublist sentinel (lstrip content)"
    unfolding lstrip_def contains_sublist by (rule sublist_dropWhile_keeps) (rule ends)+
  then have "sublist (rev sentinel) (rev (lstrip content))"
    by simp
  then have "sublist (rev sentinel) (dropWhile isspace (rev (lstrip content)))"
    by (rule sublist_dropWhile_keeps) (simp_all add: ends)
  then have "sublist (rev (rev sentinel)) (rev (dropWhile isspace (rev (lstrip content))))"
    by (simp only: sublist_rev)
  then show ?thesis
    by (simp add: contains_sublist strip_def rstrip_def)
qed

section \<open>Traces\<close>

lemma requests_simps [simp]:
  "requests [] = []"
  "requests (xs @ ys) = requests xs @ requests ys"
  "requests (a # xs) = (if housekeeping a then requests xs else a # requests xs)"
  by (simp_all add: requests_def)

lemma without_callback_simps [simp]:
  "without_callback [] = []"
  "without_callback (xs @ ys) = without_callback xs @ without_callback ys"
  "without_callback (a # xs) =
     (if a = Call_ended then without_callback xs else a # without_callback xs)"
  by (simp_all add: without_callback_def)

lemma requests_without_callback:
  "requests (without_callback tr) = requests tr"
  by (induction tr) auto

lemma erase_eq_iff:
  "erase s = erase s' \<longleftrightarrow>
     without_callback (trace s) = without_callback (trace s') \<and>
     system_prompt s = system_prompt s' \<and> player s = player s' \<and>
     conversation_history s = conversation_history s'"
  by (cases s; cases s') (simp add: erase_def)

lemma alike_and_then:
  assumes "alike m m'"
    and "\<And>a s s'. erase s = erase s' \<Longrightarrow> alike (k a s) (k' a s')"
  shows "alike (and_then m k) (and_then m' k')"
  using assms by (cases m; cases m'; cases "fst m") (auto simp: alike_def and_then_def)

lemma alike_Pair:
  "erase s = erase s' \<Longrightarrow> alike (r, s) (r, s')"
  by (simp add: alike_def)

lemma erase_history_update:
  "erase s = erase s' \<Longrightarrow>
     erase (s\<lparr>conversation_history := conversation_history s @ h\<rparr>) =
     erase (s'\<lparr>conversation_history := conversation_history s' @ h\<rparr>)"
  by (simp add: erase_eq_iff)

lemma count_list_requests:
  "\<not> housekeeping a \<Longrightarrow> count_list (requests tr) a = count_list tr a"
  by (induction tr) auto

lemma count_list_replicate:
  "count_list (replicate n x) y = (if x = y then n else 0)"
  by (induction n) auto

lemma and_then_simps [simp]:
  "and_then (Inl e, s) f = (Inl e, s)"
  "and_then (Inr a, s) f = f a s"
  by (simp_all add: and_then_def)

lemma snd_and_then_Pair [simp]:
  "snd (and_then m (\<lambda>_ s. (Inr c, s))) = snd m"
  by (cases m; cases "fst m") auto

lemma and_then_activeE:
  assumes "is_active (snd (and_then m f))"
  obtains "is_active (snd m)" | a where "is_active (snd (f a (snd m)))"
  using assms by (cases m; cases "fst m") auto

lemma emit_fields [simp]:
  "conversation_history (emit a s) = conversation_history s"
  "system_prompt (emit a s) = system_prompt s"
  "player (emit a s) = player s"
  "is_active (emit a s) = is_active s"
  "trace (emit a s) = trace s @ [a]"
  by (simp_all add: emit_def)

lemma onCallState_fields [simp]:
  "conversation_history (onCallState st t s) = conversation_history s"
  "system_prompt (onCallState st t s) = system_prompt s"
  "player (onCallState st t s) = player s"
  "requests (trace (onCallState st t s)) = requests (trace s)"
  "disc t = None \<Longrightarrow> onCallState st t s = s"
  by (simp_all add: onCallState_def emit_def)

lemma onCallState_active:
  "is_active (onCallState st t s) \<longleftrightarrow> is_active s \<and> disc t \<noteq> Some st"
  by (simp add: onCallState_def emit_def)

section \<open>The stages of the agent\<close>

lemmas speak_defs =
  speak_def speak_body_def and_then_def except_Exception_def Let_def onCallState_def emit_def

lemma speak_requests [simp]:
  "requests (trace (snd (speak t x s))) = requests (trace s) @ [Speech_create x]"
  by (simp add: speak_defs split: reply.split exn.split)

lemma speak_returns:
  "speak_caught t \<Longrightarrow> fst (speak t x s) = Inr ()"
  by (auto simp: speak_caught_def speak_defs split: reply.splits exn.splits)

lemma speak_fields [simp]:
  "conversation_history (snd (speak t x s)) = conversation_history s"
  "system_prompt (snd (speak t x s)) = system_prompt s"
  "player (snd (speak t x s)) = player s"
  by (simp_all add: speak_defs split: reply.split exn.split)

lemma speak_active:
  "disc t = None \<Longrightarrow> is_active (snd (speak t x s)) = is_active s"
  by (simp add: speak_defs split: reply.split exn.split)

lemma speak_stays_active:
  "is_active (snd (speak t x s)) \<Longrightarrow> is_active s"
  by (simp add: speak_defs split: reply.splits exn.splits if_splits)

lemma and_then_speak:
  "speak_caught t \<Longrightarrow> and_then (speak t x s) f = f () (snd (speak t x s))"
  using speak_returns [of t x s] by (cases "speak t x s") simp

lemma listen_returns:
  "caught (samples_r t) \<Longrightarrow> fst (listen_for_speech t s) = Inr (captured (samples_r t))"
  by (cases "samples_r t") (auto simp: listen_for_speech_def except_Exception_def Let_def)

lemma listen_fields [simp]:
  "conversation_history (snd (listen_for_speech t s)) = conversation_history s"
  "system_prompt (snd (listen_for_speech t s)) = system_prompt s"
  "player (snd (listen_for_speech t s)) = player s"
  "requests (trace (snd (listen_for_speech t s))) = requests (trace s)"
  by (simp_all add: listen_for_speech_def except_Exception_def Let_def split: reply.split)

lemma listen_active:
  "disc t = None \<Longrightarrow> is_active (snd (listen_for_speech t s)) = is_active s"
  by (simp add: listen_for_speech_def except_Exception_def Let_def split: reply.split)

lemma listen_stays_active:
  "is_active (snd (listen_for_speech t s)) \<Longrightarrow> is_active s \<and> disc t \<noteq> Some Capture"
  by (simp add: listen_for_speech_def except_Exception_def Let_def onCallState_active
       split: reply.splits if_splits)

lemma transcribe_returns:
  "caught (stt_r t) \<Longrightarrow> \<exists>u. fst (transcribe t a s) = Inr u"
  by (cases "stt_r t") (auto simp: transcribe_def except_Exception_def Let_def)

lemma transcribe_text:
  "stt_r t = Ok text \<Longrightarrow> fst (transcribe t a s) = Inr (Some (strip text))"
  by (simp add: transcribe_def Let_def)

lemma transcribe_no_text:
  "no_text (stt_r t) \<Longrightarrow>
     fst (transcribe t a s) = Inr None \<or> fst (transcribe t a s) = Inr (Some [])"
  by (cases "stt_r t") (auto simp: transcribe_def except_Exception_def Let_def)

lemma transcribe_fields [simp]:
  "conversation_history (snd (transcribe t a s)) = conversation_history s"
  "system_prompt (snd (transcribe t a s)) = system_prompt s"
  "player (snd (transcribe t a s)) = player s"
  "requests (trace (snd (transcribe t a s))) = requests (trace s) @ [Transcriptions_create a]"
  by (simp_all add: transcribe_def except_Exception_def Let_def split: reply.split)

lemma transcribe_active:
  "disc t = None \<Longrightarrow> is_active (snd (transcribe t a s)) = is_active s"
  by (simp add: transcribe_def except_Exception_def Let_def split: reply.split)

lemma transcribe_stays_active:
  "is_active (snd (transcribe t a s)) \<Longrightarrow> is_active s"
  by (simp add: transcribe_def except_Exception_def Let_def onCallState_active
       split: reply.splits if_splits)

lemma generate_returns:
  "caught (gen_r t) \<Longrightarrow> \<exists>p. fst (generate_response t s) = Inr p"
  by (cases "gen_r t")
     (auto simp: generate_response_def except_Exception_def Let_def
        split: list.split option.split)

lemma generate_fallback:
  assumes "generation_failed (gen_r t)"
  shows "fst (generate_response t s) = Inr (apology, True)"
    and "requests (trace (snd (generate_response t s))) =
           requests (trace s) @ [Chat_create ((System, system_prompt s) # conversation_history s)]"
    and "conversation_history (snd (generate_response t s)) = conversation_history s"
  using assms
  by (cases "(gen_r t)" rule: generation_failed.cases;
      simp add: generate_response_def except_Exception_def onCallState_def emit_def Let_def)+

lemma generate_stays_active:
  "is_active (snd (generate_response t s)) \<Longrightarrow> is_active s"
  by (simp add: generate_response_def except_Exception_def Let_def onCallState_active
       split: reply.splits list.splits option.splits if_splits)

text \<open>No stage reads the flag: a hang-up changes nothing of what a stage does.\<close>

lemma alike_listen:
  "erase s = erase s' \<Longrightarrow>
     alike (listen_for_speech t s) (listen_for_speech (t\<lparr>disc := d\<rparr>) s')"
  by (simp add: alike_def erase_eq_iff listen_for_speech_def except_Exception_def Let_def
        onCallState_def emit_def split: reply.split)

lemma alike_transcribe:
  "erase s = erase s' \<Longrightarrow> alike (transcribe t a s) (transcribe (t\<lparr>disc := d\<rparr>) a s')"
  by (simp add: alike_def erase_eq_iff transcribe_def except_Exception_def Let_def
        onCallState_def emit_def split: reply.split)

lemma alike_generate:
  "erase s = erase s' \<Longrightarrow>
     alike (generate_response t s) (generate_response (t\<lparr>disc := d\<rparr>) s')"
  by (simp add: alike_def erase_eq_iff generate_response_def except_Exception_def Let_def
        onCallState_def emit_def split: reply.split list.split option.split)

lemma alike_speak:
  "erase s = erase s' \<Longrightarrow> alike (speak t x s) (speak (t\<lparr>disc := d\<rparr>) x s')"
  by (simp add: alike_def erase_eq_iff speak_def speak_body_def and_then_def
        except_Exception_def Let_def onCallState_def emit_def split: reply.split exn.split)

lemma erase_hangup:
  "erase s = erase s' \<Longrightarrow>
     erase (emit Hangup (onCallState EndPause t (emit (Sleep 1000) s))) =
     erase (emit Hangup (onCallState EndPause (t\<lparr>disc := d\<rparr>) (emit (Sleep 1000) s')))"
  by (simp add: erase_eq_iff onCallState_def emit_def)

text \<open>The marker ends the call wherever it stands in the text of the service.\<close>

lemma marker_ends_call:
  assumes "gen_r t = Ok (Some content # cs)" and "contains sentinel content"
  shows "\<exists>text. fst (generate_response t s) = Inr (text, True)"
  using assms contains_sentinel_strip [OF assms(2)]
  by (simp add: generate_response_def Let_def)

section \<open>One iteration of the conversation loop\<close>

lemma silent_conversation_turn:
  assumes "no_audio (samples_r t)" and "speak_caught t"
  shows "conversation_turn t s =
     (Inr Continue, snd (speak t reprompt_no_audio (snd (listen_for_speech t s))))"
proof -
  obtain r s1 where l: "listen_for_speech t s = (r, s1)"
    by (cases "listen_for_speech t s")
  from assms(1) have "caught (samples_r t)" and "captured (samples_r t) = None"
    by (cases "samples_r t"; simp)+
  with listen_returns [of t s] l have "r = Inr None"
    by simp
  with l show ?thesis
    by (simp add: conversation_turn_def conversation_body_def and_then_speak [OF assms(2)])
qed

text \<open>
  Speech is captured and the transcription gives no usable text: the iteration asks for
  the transcription once, says the second re-prompt and goes on, with the history as
  it was.
\<close>

lemma untranscribed_body_state:
  assumes "captured (samples_r t) = Some w" and "no_text (stt_r t)"
  shows "snd (conversation_body t s) =
     snd (speak t reprompt_no_text (snd (transcribe t w (snd (listen_for_speech t s)))))"
proof -
  obtain r1 s1 where l: "listen_for_speech t s = (r1, s1)"
    by (cases "listen_for_speech t s")
  from assms(1) have "caught (samples_r t)"
    by (cases "samples_r t") simp_all
  with listen_returns [of t s] l assms(1) have r1: "r1 = Inr (Some w)"
    by simp
  obtain r2 s2 where tr: "transcribe t w s1 = (r2, s2)"
    by (cases "transcribe t w s1")
  with transcribe_no_text [OF assms(2), of w s1]
  have "r2 = Inr None \<or> r2 = Inr (Some [])"
    by simp
  with l r1 tr show ?thesis
    by (auto simp add: conversation_body_def)
qed

lemma untranscribed_conversation_turn:
  assumes "captured (samples_r t) = Some w" and "no_text (stt_r t)" and "speak_caught t"
  shows "conversation_turn t s =
     (Inr Continue,
      snd (speak t reprompt_no_text (snd (transcribe t w (snd (listen_for_speech t s))))))"
proof -
  obtain r1 s1 where l: "listen_for_speech t s = (r1, s1)"
    by (cases "listen_for_speech t s")
  from assms(1) have "caught (samples_r t)"
    by (cases "samples_r t") simp_all
  with listen_returns [of t s] l assms(1) have r1: "r1 = Inr (Some w)"
    by simp
  obtain r2 s2 where tr: "transcribe t w s1 = (r2, s2)"
    by (cases "transcribe t w s1")
  with transcribe_no_text [OF assms(2), of w s1]
  have "r2 = Inr None \<or> r2 = Inr (Some [])"
    by simp
  with l r1 tr show ?thesis
    by (auto simp add: conversation_turn_def conversation_body_def
          and_then_speak [OF assms(3)])
qed

text \<open>The handler of the loop adds no request and leaves the history alone.\<close>


lemma conversation_turn_after_body:
  "conversation_history (snd (conversation_turn t s)) =
     conversation_history (snd (conversation_body t s))"
  "requests (trace (snd (conversation_turn t s))) =
     requests (trace (snd (conversation_body t s)))"
  by (cases "conversation_body t s"; cases "fst (conversation_body t s)";
      simp add: conversation_turn_def except_Exception_def)+

text \<open>
  Speech is captured and understood, and the generation fails: the iteration says the
  apology and hangs up.
\<close>

lemma failed_generation_turn:
  assumes "captured (samples_r t) = Some w" and "stt_r t = Ok text" and "strip text \<noteq> []"
    and "generation_failed (gen_r t)" and "speak_caught t"
  shows "requests (trace (snd (conversation_turn t s))) =
           requests (trace s) @
           [Transcriptions_create w,
            Chat_create ((System, system_prompt s) # conversation_history s @ [(User, strip text)]),
            Speech_create apology, Hangup] \<and>
         conversation_history (snd (conversation_turn t s)) =
           conversation_history s @ [(User, strip text), (Assistant, apology)] \<and>
         (hangup_r t = Ok () \<longrightarrow> fst (conversation_turn t s) = Inr Break)"
proof -
  obtain r1 s1 where l: "listen_for_speech t s = (r1, s1)"
    by (cases "listen_for_speech t s")
  from assms(1) have "caught (samples_r t)"
    by (cases "samples_r t") simp_all
  with listen_returns [of t s] l assms(1) have r1: "r1 = Inr (Some w)"
    by simp
  from l have s1: "conversation_history s1 = conversation_history s"
    "system_prompt s1 = system_prompt s" "requests (trace s1) = requests (trace s)"
    using listen_fields [of t s] by simp_all
  obtain r2 s2 where tr: "transcribe t w s1 = (r2, s2)"
    by (cases "transcribe t w s1")
  with transcribe_text [OF assms(2), of w s1] have r2: "r2 = Inr (Some (strip text))"
    by simp
  from tr have s2: "conversation_history s2 = conversation_history s1"
    "system_prompt s2 = system_prompt s1"
    "requests (trace s2) = requests (trace s1) @ [Transcriptions_create w]"
    using transcribe_fields [of t w s1] by simp_all
  let ?s2 = "s2\<lparr>conversation_history := conversation_history s2 @ [(User, strip text)]\<rparr>"
  obtain r3 s3 where g: "generate_response t ?s2 = (r3, s3)"
    by (cases "generate_response t ?s2")
  with generate_fallback [OF assms(4), of ?s2]
  have r3: "r3 = Inr (apology, True)"
    and s3: "conversation_history s3 = conversation_history ?s2"
      "requests (trace s3) = requests (trace ?s2) @
         [Chat_create ((System, system_prompt ?s2) # conversation_history ?s2)]"
    by simp_all
  let ?s3 = "s3\<lparr>conversation_history := conversation_history s3 @ [(Assistant, apology)]\<rparr>"
  let ?s4 = "snd (speak t apology ?s3)"
  have body: "conversation_body t s =
      (case hangup_r t of
         Ok u \<Rightarrow> (Inr Break, emit Hangup (onCallState EndPause t (emit (Sleep 1000) ?s4)))
       | Raise e \<Rightarrow> (Inl e, emit Hangup (onCallState EndPause t (emit (Sleep 1000) ?s4))))"
    using assms(3)
    by (simp add: conversation_body_def l r1 tr r2 g r3 and_then_speak [OF assms(5)] Let_def)
  have "requests (trace (snd (conversation_body t s))) = requests (trace ?s4) @ [Hangup]"
    and "conversation_history (snd (conversation_body t s)) = conversation_history ?s4"
    and "hangup_r t = Ok () \<longrightarrow> fst (conversation_turn t s) = Inr Break"
    unfolding body conversation_turn_def
    by (cases "hangup_r t"; simp)+
  then show ?thesis
    by (simp add: conversation_turn_after_body s1 s2 s3)
qed

text \<open>The body of the loop raises what its stages let through, and what the hang-up raises.\<close>

lemma conversation_body_raises:
  assumes "raises_only_Exception t" and "fst (conversation_body t s) = Inl e"
  shows "is_Exception e"
proof -
  from assms(1) have c: "caught (samples_r t)" "caught (stt_r t)" "caught (gen_r t)"
    "speak_caught t" "caught (hangup_r t)"
    by (simp_all add: raises_only_Exception_def)
  obtain a s1 where l: "listen_for_speech t s = (Inr a, s1)"
    using listen_returns [OF c(1), of s] by (cases "listen_for_speech t s") auto
  show ?thesis
  proof (cases a)
    case None
    with assms(2) l show ?thesis
      by (simp add: conversation_body_def and_then_speak [OF c(4)])
  next
    case (Some w)
    obtain u s2 where tr: "transcribe t w s1 = (Inr u, s2)"
      using transcribe_returns [OF c(2), of w s1] by (cases "transcribe t w s1") auto
    show ?thesis
    proof (cases "u = None \<or> u = Some []")
      case True
      with assms(2) l Some tr show ?thesis
        by (auto simp add: conversation_body_def and_then_speak [OF c(4)])
    next
      case False
      let ?s2 = "s2\<lparr>conversation_history := conversation_history s2 @ [(User, the u)]\<rparr>"
      obtain rt se s3 where g: "generate_response t ?s2 = (Inr (rt, se), s3)"
        using generate_returns [OF c(3), of ?s2] by (cases "generate_response t ?s2") auto
      from assms(2) l Some tr False g c(5) show ?thesis
        by (cases "hangup_r t")
           (auto simp add: conversation_body_def and_then_speak [OF c(4)] Let_def
              split: if_splits)
    qed
  qed
qed

lemma conversation_turn_returns:
  assumes "raises_only_Exception t"
  shows "fst (conversation_turn t s) = Inr Continue \<or> fst (conversation_turn t s) = Inr Break"
proof (cases "conversation_body t s")
  case (Pair r s1)
  show ?thesis
  proof (cases r)
    case (Inl e)
    with Pair conversation_body_raises [OF assms, of s e] show ?thesis
      by (simp add: conversation_turn_def except_Exception_def)
  next
    case (Inr c)
    with Pair show ?thesis
      by (cases c) (simp_all add: conversation_turn_def)
  qed
qed

text \<open>No stage sets the flag; a hang-up during the capture clears it.\<close>

lemma conversation_body_stays_active:
  "is_active (snd (conversation_body t s)) \<Longrightarrow> is_active s \<and> disc t \<noteq> Some Capture"
  unfolding conversation_body_def
  by (auto elim!: and_then_activeE
        dest!: speak_stays_active listen_stays_active transcribe_stays_active
          generate_stays_active
        simp: onCallState_active Let_def
        split: option.splits if_splits reply.splits prod.splits)

lemma conversation_turn_inactive:
  assumes "\<not> is_active s \<or> disc t = Some Capture"
  shows "\<not> is_active (snd (conversation_turn t s))"
  using conversation_body_stays_active [of t s] assms
  by (cases "conversation_body t s"; cases "fst (conversation_body t s)")
     (auto simp: conversation_turn_def except_Exception_def onCallState_active)

text \<open>
  The iteration does the same whether and whenever the remote party hangs up during it:
  it ends the same way and its trace differs in the callback's entries only.
\<close>

lemma alike_conversation_body:
  "erase s = erase s' \<Longrightarrow>
     alike (conversation_body t s) (conversation_body (t\<lparr>disc := d\<rparr>) s')"
  unfolding conversation_body_def
  apply (rule alike_and_then)
   apply (erule alike_listen)
  subgoal for a s1 s1'
    apply (cases a)
     apply simp
     apply (rule alike_and_then)
      apply (erule alike_speak)
     apply (erule alike_Pair)
    apply simp
    apply (rule alike_and_then)
     apply (erule alike_transcribe)
    subgoal for w u s2 s2'
      apply (cases "u = None \<or> u = Some []")
       apply (simp only: if_True)
       apply (rule alike_and_then)
        apply (erule alike_speak)
       apply (erule alike_Pair)
      apply (simp only: if_False)
      apply (rule alike_and_then)
       apply (rule alike_generate)
       apply (erule erase_history_update)
      subgoal for p s3 s3'
        apply (cases p)
        apply (simp only: prod.case)
        apply (rule alike_and_then)
         apply (rule alike_speak)
         apply (erule erase_history_update)
        apply (auto simp: Let_def alike_def erase_hangup split: reply.split)
        done
      done
    done
  done

lemma alike_conversation_turn:
  "erase s = erase s' \<Longrightarrow>
     alike (conversation_turn t s) (conversation_turn (t\<lparr>disc := d\<rparr>) s')"
  using alike_conversation_body [of s s' t d]
  by (cases "conversation_body t s"; cases "conversation_body (t\<lparr>disc := d\<rparr>) s'";
      cases "fst (conversation_body t s)")
     (auto simp: alike_def conversation_turn_def except_Exception_def erase_eq_iff
        onCallState_def emit_def)

lemma conversation_turn_whatever_disc:
  "fst (conversation_turn (t\<lparr>disc := d\<rparr>) s) = fst (conversation_turn t s) \<and>
   without_callback (trace (snd (conversation_turn (t\<lparr>disc := d\<rparr>) s))) =
     without_callback (trace (snd (conversation_turn t s))) \<and>
   conversation_history (snd (conversation_turn (t\<lparr>disc := d\<rparr>) s)) =
     conversation_history (snd (conversation_turn t s))"
  using alike_conversation_turn [of s s t d] by (simp add: alike_def erase_eq_iff)

text \<open>
  The transcription is blank and the synthesis, the file and the player work: the
  iteration is the capture, the transcription, and the second re-prompt synthesized,
  written, played and waited for.
\<close>

lemma blank_turn_plays:
  assumes "captured (samples_r t) = Some w" and "stt_r t = Ok text" and "strip text = []"
    and "tts_r t = Ok audio_data" and "tmp_r t = Ok ()" and "play_r t = Ok ()"
    and "unlink_r t = Ok ()" and "player s"
  shows "fst (conversation_turn t s) = Inr Continue \<and>
         without_callback (trace (snd (conversation_turn t s))) =
           without_callback (trace s) @
           [Sleep 10000, Transcriptions_create w, Speech_create reprompt_no_text,
            Tmp_write audio_data, Start_player, Sleep (length reprompt_no_text * 100), Unlink]"
  using assms
  by (cases "samples_r t")
     (auto simp: conversation_turn_def conversation_body_def listen_for_speech_def transcribe_def
        speak_def speak_body_def and_then_def onCallState_def emit_def Let_def
        split: if_splits)

section \<open>One iteration of the transcription loop\<close>

lemmas transcription_defs =
  transcription_turn_def transcription_body_def get_audio_chunk_def transcribe_audio_def
  except_Exception_def Let_def onCallState_t_def emit_def

lemma silent_transcription_turn:
  assumes "no_audio (samples_r t)" and "disc t = None"
  shows "fst (transcription_turn t r) = Inr Continue \<and>
         is_recording (snd (transcription_turn t r)) = is_recording r \<and>
         requests (trace (snd (transcription_turn t r))) = requests (trace r)"
  using assms by (cases "samples_r t") (auto simp: transcription_defs)

lemma transcription_turn_returns:
  assumes "caught (samples_r t)" and "caught (stt_r t)" and "caught (send_r t)"
  shows "fst (transcription_turn t r) = Inr Continue"
  using assms
  by (cases "samples_r t"; cases "stt_r t"; cases "send_r t")
     (auto simp: transcription_defs elim!: is_Exception.elims)

lemma transcription_turn_inactive:
  assumes "\<not> is_recording r \<or> disc t = Some Capture"
  shows "\<not> is_recording (snd (transcription_turn t r))"
  using assms
  by (auto simp: transcription_defs and_then_def
        split: reply.split option.split sum.split prod.split)

lemma transcription_turn_whatever_disc:
  "fst (transcription_turn (t\<lparr>disc := d\<rparr>) r) = fst (transcription_turn t r) \<and>
   without_callback (trace (snd (transcription_turn (t\<lparr>disc := d\<rparr>) r))) =
     without_callback (trace (snd (transcription_turn t r)))"
  by (simp add: transcription_defs and_then_def split: reply.split exn.split)

lemma blank_transcription_turn:
  assumes "captured (samples_r t) = Some w" and "stt_r t = Ok text" and "strip text = []"
  shows "fst (transcription_turn t r) = Inr Continue \<and>
         requests (trace (snd (transcription_turn t r))) =
           requests (trace r) @ [Transcriptions_create w]"
  using assms by (cases "samples_r t") (auto simp: transcription_defs split: if_splits)

lemma pushed_transcription_turn:
  assumes "captured (samples_r t) = Some w" and "stt_r t = Ok text" and "strip text \<noteq> []"
  shows "requests (trace (snd (transcription_turn t r))) =
           requests (trace r) @ [Transcriptions_create w, Send_transcript [Text_arg (strip text)]]"
    and "disc t = None \<Longrightarrow> is_recording (snd (transcription_turn t r)) = is_recording r"
    and "caught (send_r t) \<Longrightarrow> fst (transcription_turn t r) = Inr Continue"
  using assms
  by (cases "samples_r t"; cases "send_r t";
      auto simp: transcription_defs split: if_splits exn.splits elim!: is_Exception.elims)+

section \<open>The loops\<close>

lemma conversation_loop_inactive:
  "\<not> is_active s \<Longrightarrow> conversation_loop ts s = (Exited, s)"
  by (cases ts) simp_all

lemma conversation_loop_last_turn:
  assumes "is_active s" and "\<not> is_active (snd (conversation_turn t s))"
  shows "conversation_loop (t # ts) s = conversation_loop [t] s \<and>
         fst (conversation_loop [t] s) \<noteq> Running \<and>
         snd (conversation_loop [t] s) = snd (conversation_turn t s)"
proof -
  obtain r s1 where turn: "conversation_turn t s = (r, s1)"
    by (cases "conversation_turn t s")
  with assms(2) have "\<not> is_active s1"
    by simp
  with assms(1) show ?thesis
    by (simp add: turn conversation_loop_inactive split: sum.split ctl.split)
qed

lemma transcription_loop_inactive:
  "\<not> is_recording r \<Longrightarrow> transcription_loop ts r = (Exited, r)"
  by (cases ts) simp_all

lemma transcription_loop_last_turn:
  assumes "is_recording r" and "\<not> is_recording (snd (transcription_turn t r))"
  shows "transcription_loop (t # ts) r = transcription_loop [t] r \<and>
         fst (transcription_loop [t] r) \<noteq> Running \<and>
         snd (transcription_loop [t] r) = snd (transcription_turn t r)"
proof -
  obtain c r1 where turn: "transcription_turn t r = (c, r1)"
    by (cases "transcription_turn t r")
  with assms(2) have "\<not> is_recording r1"
    by simp
  with assms(1) show ?thesis
    by (simp add: turn transcription_loop_inactive split: sum.split ctl.split)
qed

lemma silent_conversation_loop:
  assumes "\<forall>t \<in> set ts. silent t" and "is_active s"
  shows "fst (conversation_loop ts s) = Running \<and>
         is_active (snd (conversation_loop ts s)) \<and>
         conversation_history (snd (conversation_loop ts s)) = conversation_history s \<and>
         requests (trace (snd (conversation_loop ts s))) =
           requests (trace s) @ replicate (length ts) (Speech_create reprompt_no_audio)"
  using assms
proof (induction ts arbitrary: s)
  case Nil
  then show ?case by simp
next
  case (Cons t ts)
  let ?s1 = "snd (speak t reprompt_no_audio (snd (listen_for_speech t s)))"
  from Cons.prems have t: "no_audio (samples_r t)" "speak_caught t" "disc t = None"
    and ts: "\<forall>t \<in> set ts. silent t"
    by (simp_all add: silent_def)
  have turn: "conversation_turn t s = (Inr Continue, ?s1)"
    by (rule silent_conversation_turn [OF t(1,2)])
  have act: "is_active ?s1"
    using Cons.prems(2) by (simp add: speak_active [OF t(3)] listen_active [OF t(3)])
  have loop: "conversation_loop (t # ts) s = conversation_loop ts ?s1"
    using Cons.prems(2) by (simp add: turn)
  show ?case
    unfolding loop using Cons.IH [OF ts act]
    by (simp add: replicate_app_Cons_same)
qed

lemma silent_transcription_loop:
  assumes "\<forall>t \<in> set ts. no_audio (samples_r t) \<and> disc t = None" and "is_recording r"
  shows "fst (transcription_loop ts r) = Running \<and>
         is_recording (snd (transcription_loop ts r)) \<and>
         requests (trace (snd (transcription_loop ts r))) = requests (trace r)"
  using assms
proof (induction ts arbitrary: r)
  case Nil
  then show ?case by simp
next
  case (Cons t ts)
  obtain c r1 where turn: "transcription_turn t r = (c, r1)"
    by (cases "transcription_turn t r")
  from Cons.prems have t: "no_audio (samples_r t)" "disc t = None"
    and ts: "\<forall>t \<in> set ts. no_audio (samples_r t) \<and> disc t = None"
    by simp_all
  from silent_transcription_turn [OF t, of r] turn Cons.prems(2)
  have c: "c = Inr Continue" and r1: "is_recording r1" "requests (trace r1) = requests (trace r)"
    by simp_all
  have "transcription_loop (t # ts) r = transcription_loop ts r1"
    using Cons.prems(2) by (simp add: turn c)
  then show ?case
    using Cons.IH [OF ts r1(1)] r1(2) by simp
qed

lemma untranscribed_conversation_loop:
  assumes "\<forall>t \<in> set ts. transcription_fails t" and "is_active s"
  shows "fst (conversation_loop ts s) = Running \<and>
         conversation_history (snd (conversation_loop ts s)) = conversation_history s \<and>
         requests (trace (snd (conversation_loop ts s))) =
           requests (trace s) @
           concat (map (\<lambda>t. [Transcriptions_create (the (captured (samples_r t))),
                              Speech_create reprompt_no_text]) ts)"
  using assms
proof (induction ts arbitrary: s)
  case Nil
  then show ?case by simp
next
  case (Cons t ts)
  from Cons.prems obtain w where t: "captured (samples_r t) = Some w" "no_text (stt_r t)"
      "speak_caught t" "disc t = None"
    and ts: "\<forall>t \<in> set ts. transcription_fails t"
    by (cases "stt_r t") (auto simp: transcription_fails_def)
  let ?s1 = "snd (speak t reprompt_no_text (snd (transcribe t w (snd (listen_for_speech t s)))))"
  have turn: "conversation_turn t s = (Inr Continue, ?s1)"
    by (rule untranscribed_conversation_turn [OF t(1,2,3)])
  have act: "is_active ?s1"
    using Cons.prems(2)
    by (simp add: speak_active [OF t(4)] transcribe_active [OF t(4)] listen_active [OF t(4)])
  have loop: "conversation_loop (t # ts) s = conversation_loop ts ?s1"
    using Cons.prems(2) by (simp add: turn)
  show ?case
    unfolding loop using Cons.IH [OF ts act] t(1)
    by simp
qed

lemma conversation_loop_never_crashes:
  assumes "\<forall>t \<in> set ts. raises_only_Exception t"
  shows "fst (conversation_loop ts s) = Exited \<or> fst (conversation_loop ts s) = Running"
  using assms
proof (induction ts arbitrary: s)
  case Nil
  then show ?case by simp
next
  case (Cons t ts)
  from Cons.prems have t: "raises_only_Exception t"
    and ts: "\<forall>t \<in> set ts. raises_only_Exception t"
    by simp_all
  obtain c s1 where turn: "conversation_turn t s = (Inr c, s1)"
    using conversation_turn_returns [OF t, of s] by (cases "conversation_turn t s") auto
  show ?case
    using Cons.IH [OF ts, of s1] by (cases c) (simp_all add: turn)
qed

lemma transcription_loop_never_crashes:
  assumes "\<forall>t \<in> set ts. raises_only_Exception t"
  shows "fst (transcription_loop ts r) = Exited \<or> fst (transcription_loop ts r) = Running"
  using assms
proof (induction ts arbitrary: r)
  case Nil
  then show ?case by simp
next
  case (Cons t ts)
  from Cons.prems have t: "caught (samples_r t)" "caught (stt_r t)" "caught (send_r t)"
    and ts: "\<forall>t \<in> set ts. raises_only_Exception t"
    by (simp_all add: raises_only_Exception_def)
  obtain r1 where turn: "transcription_turn t r = (Inr Continue, r1)"
    using transcription_turn_returns [OF t, of r] by (cases "transcription_turn t r") auto
  show ?case
    using Cons.IH [OF ts, of r1] by (simp add: turn)
qed

section \<open>The claims\<close>

lemmas scenario_defs =
  call0_def monitor0_def quiet_def hallo_def hangup_in_capture_def nested_marker_def
  recorder_down_def stt_down_def gen_down_def tts_down_def hangup_fails_def blank_def

lemmas agent_defs =
  conversation_turn_def conversation_body_def listen_for_speech_def transcribe_def
  generate_response_def speak_def speak_body_def and_then_def except_Exception_def
  onCallState_def emit_def Let_def

lemmas vocabulary_defs =
  silent_def transcription_fails_def speak_caught_def raises_only_Exception_def

text \<open>
  C1 (as amended). The loops read the flag at the \<^verbatim>\<open>while\<close> condition only, and at
  no stage boundary. A loop whose flag is cleared at the condition stops there and does
  nothing more. When the flag is cleared during an iteration, that iteration runs to its
  end, and the loop stops before another capture: the rest of the script is never asked
  for. A hang-up during the capture clears the flag for the end of the iteration.
  Whether and in which stage the remote party hangs up changes nothing of what the
  iteration does: it ends the same way, and it makes the same calls, sleeps and pushes
  in the same order, every later stage included; the traces differ in the callback's
  entries only. This holds in both modes.
\<close>

theorem flag_is_read_at_loop_condition:
  "(\<not> is_active s \<longrightarrow> conversation_loop ts s = (Exited, s)) \<and>
   (is_active s \<and> \<not> is_active (snd (conversation_turn t s)) \<longrightarrow>
      conversation_loop (t # ts) s = conversation_loop [t] s \<and>
      fst (conversation_loop [t] s) \<noteq> Running \<and>
      snd (conversation_loop [t] s) = snd (conversation_turn t s)) \<and>
   (disc t = Some Capture \<longrightarrow> \<not> is_active (snd (conversation_turn t s))) \<and>
   (\<not> is_recording r \<longrightarrow> transcription_loop ts r = (Exited, r)) \<and>
   (is_recording r \<and> \<not> is_recording (snd (transcription_turn t r)) \<longrightarrow>
      transcription_loop (t # ts) r = transcription_loop [t] r \<and>
      fst (transcription_loop [t] r) \<noteq> Running \<and>
      snd (transcription_loop [t] r) = snd (transcription_turn t r)) \<and>
   (disc t = Some Capture \<longrightarrow> \<not> is_recording (snd (transcription_turn t r))) \<and>
   fst (conversation_turn (t\<lparr>disc := d\<rparr>) s) = fst (conversation_turn t s) \<and>
   without_callback (trace (snd (conversation_turn (t\<lparr>disc := d\<rparr>) s))) =
     without_callback (trace (snd (conversation_turn t s))) \<and>
   requests (trace (snd (conversation_turn (t\<lparr>disc := d\<rparr>) s))) =
     requests (trace (snd (conversation_turn t s))) \<and>
   conversation_history (snd (conversation_turn (t\<lparr>disc := d\<rparr>) s)) =
     conversation_history (snd (conversation_turn t s)) \<and>
   fst (transcription_turn (t\<lparr>disc := d\<rparr>) r) = fst (transcription_turn t r) \<and>
   without_callback (trace (snd (transcription_turn (t\<lparr>disc := d\<rparr>) r))) =
     without_callback (trace (snd (transcription_turn t r))) \<and>
   requests (trace (snd (transcription_turn (t\<lparr>disc := d\<rparr>) r))) =
     requests (trace (snd (transcription_turn t r)))"
proof -
  have condition:
    "(\<not> is_active s \<longrightarrow> conversation_loop ts s = (Exited, s)) \<and>
     (is_active s \<and> \<not> is_active (snd (conversation_turn t s)) \<longrightarrow>
        conversation_loop (t # ts) s = conversation_loop [t] s \<and>
        fst (conversation_loop [t] s) \<noteq> Running \<and>
        snd (conversation_loop [t] s) = snd (conversation_turn t s)) \<and>
     (disc t = Some Capture \<longrightarrow> \<not> is_active (snd (conversation_turn t s))) \<and>
     (\<not> is_recording r \<longrightarrow> transcription_loop ts r = (Exited, r)) \<and>
     (is_recording r \<and> \<not> is_recording (snd (transcription_turn t r)) \<longrightarrow>
        transcription_loop (t # ts) r = transcription_loop [t] r \<and>
        fst (transcription_loop [t] r) \<noteq> Running \<and>
        snd (transcription_loop [t] r) = snd (transcription_turn t r)) \<and>
     (disc t = Some Capture \<longrightarrow> \<not> is_recording (snd (transcription_turn t r)))"
    using conversation_loop_inactive [of s ts] conversation_loop_last_turn [of s t ts]
      conversation_turn_inactive [of s t] transcription_loop_inactive [of r ts]
      transcription_loop_last_turn [of r t ts] transcription_turn_inactive [of r t]
    by blast
  note agent = conversation_turn_whatever_disc [where t = t and d = d and s = s]
  note monitor = transcription_turn_whatever_disc [where t = t and d = d and r = r]
  from agent have
    "requests (without_callback (trace (snd (conversation_turn (t\<lparr>disc := d\<rparr>) s)))) =
     requests (without_callback (trace (snd (conversation_turn t s))))"
    by simp
  then have agent_requests:
    "requests (trace (snd (conversation_turn (t\<lparr>disc := d\<rparr>) s))) =
     requests (trace (snd (conversation_turn t s)))"
    by (simp only: requests_without_callback)
  from monitor have
    "requests (without_callback (trace (snd (transcription_turn (t\<lparr>disc := d\<rparr>) r)))) =
     requests (without_callback (trace (snd (transcription_turn t r))))"
    by simp
  then have monitor_requests:
    "requests (trace (snd (transcription_turn (t\<lparr>disc := d\<rparr>) r))) =
     requests (trace (snd (transcription_turn t r)))"
    by (simp only: requests_without_callback)
  from condition agent monitor agent_requests monitor_requests show ?thesis
    by (simp only: simp_thms)
qed

theorem flag_is_read_at_loop_condition_witness:
  "is_active call0 \<and> disc hangup_in_capture = Some Capture \<and>
   \<not> is_active (snd (conversation_turn hangup_in_capture call0)) \<and>
   conversation_loop [hangup_in_capture, quiet] call0 = conversation_loop [hangup_in_capture] call0 \<and>
   fst (conversation_loop [hangup_in_capture] call0) \<noteq> Running \<and>
   is_recording monitor0 \<and>
   \<not> is_recording (snd (transcription_turn hangup_in_capture monitor0)) \<and>
   transcription_loop [hangup_in_capture, quiet] monitor0 =
     transcription_loop [hangup_in_capture] monitor0 \<and>
   fst (transcription_loop [hangup_in_capture] monitor0) \<noteq> Running \<and>
   without_callback (trace (snd (conversation_turn hangup_in_capture call0))) =
     without_callback (trace (snd (conversation_turn hallo call0))) \<and>
   requests (trace (snd (conversation_turn hangup_in_capture call0))) =
     [Transcriptions_create (Wav [1, 2]),
      Chat_create [(System, system_prompt call0), (User, py ''Hallo'')],
      Speech_create (py ''Gern.'')] \<and>
   without_callback (trace (snd (transcription_turn hangup_in_capture monitor0))) =
     without_callback (trace (snd (transcription_turn hallo monitor0))) \<and>
   requests (trace (snd (transcription_turn hangup_in_capture monitor0))) =
     [Transcriptions_create (Wav [1, 2]), Send_transcript [Text_arg (py ''Hallo'')]]"
proof -
  have facts: "is_active call0" "disc hangup_in_capture = Some Capture" "is_recording monitor0"
    "hallo\<lparr>disc := Some Capture\<rparr> = hangup_in_capture"
    by (simp_all add: scenario_defs)
  have "requests (trace (snd (conversation_turn hallo call0))) =
     [Transcriptions_create (Wav [1, 2]),
      Chat_create [(System, system_prompt call0), (User, py ''Hallo'')],
      Speech_create (py ''Gern.'')]"
    by (simp add: scenario_defs agent_defs string_defs)
  moreover have "requests (trace (snd (transcription_turn hallo monitor0))) =
     [Transcriptions_create (Wav [1, 2]), Send_transcript [Text_arg (py ''Hallo'')]]"
    by (simp add: scenario_defs transcription_defs and_then_def string_defs)
  moreover note facts
    flag_is_read_at_loop_condition
      [where s = call0 and r = monitor0 and t = hangup_in_capture and ts = "[quiet]"
         and d = "Some Capture"]
    flag_is_read_at_loop_condition
      [where s = call0 and r = monitor0 and t = hallo and ts = "[]" and d = "Some Capture"]
  ultimately show ?thesis
    by simp
qed

text \<open>
  C1 as stated fails: the remote party hangs up during the capture, and the iteration
  still asks for the transcription, the answer and its synthesis, and plays it.
\<close>

theorem hangup_in_capture_runs_whole_turn:
  "trace (snd (conversation_loop [hangup_in_capture] call0)) =
     [Sleep 10000, Call_ended, Transcriptions_create (Wav [1, 2]),
      Chat_create [(System, system_prompt call0), (User, py ''Hallo'')],
      Speech_create (py ''Gern.''), Tmp_write [3, 4], Start_player, Sleep 500, Unlink]"
  by (simp add: scenario_defs agent_defs string_defs)

text \<open>
  C2. Whatever the stages of an iteration raise, as long as it is an \<^verbatim>\<open>Exception\<close>,
  the iteration ends with the loop going on to its condition (and from there to the
  next capture) or leaving by \<^verbatim>\<open>break\<close>; no exception leaves either loop, which
  after any script has either left the \<^verbatim>\<open>while\<close> or is about to start an iteration.
  A capture that fails is answered with the first re-prompt and the next capture; a
  transcription that fails, with the second re-prompt and the next capture; a generation
  that fails, with the apology and the hang-up, after which the loop is left if the
  hang-up returns.
\<close>

theorem turn_failures_are_caught:
  assumes "raises_only_Exception t" and "\<forall>t \<in> set ts. raises_only_Exception t"
  shows "(fst (conversation_turn t s) = Inr Continue \<or> fst (conversation_turn t s) = Inr Break) \<and>
         fst (transcription_turn t r) = Inr Continue \<and>
         (fst (conversation_loop ts s) = Exited \<or> fst (conversation_loop ts s) = Running) \<and>
         (fst (transcription_loop ts r) = Exited \<or> fst (transcription_loop ts r) = Running) \<and>
         (failed (samples_r t) \<longrightarrow>
            fst (conversation_turn t s) = Inr Continue \<and>
            requests (trace (snd (conversation_turn t s))) =
              requests (trace s) @ [Speech_create reprompt_no_audio]) \<and>
         (captured (samples_r t) \<noteq> None \<and> failed (stt_r t) \<longrightarrow>
            fst (conversation_turn t s) = Inr Continue \<and>
            requests (trace (snd (conversation_turn t s))) =
              requests (trace s) @
              [Transcriptions_create (the (captured (samples_r t))),
               Speech_create reprompt_no_text]) \<and>
         (captured (samples_r t) \<noteq> None \<and> heard (stt_r t) \<noteq> None \<and>
          generation_failed (gen_r t) \<longrightarrow>
            requests (trace (snd (conversation_turn t s))) =
              requests (trace s) @
              [Transcriptions_create (the (captured (samples_r t))),
               Chat_create ((System, system_prompt s) #
                 conversation_history s @ [(User, the (heard (stt_r t)))]),
               Speech_create apology, Hangup] \<and>
            (hangup_r t = Ok () \<longrightarrow> fst (conversation_turn t s) = Inr Break))"
proof -
  from assms(1) have c: "caught (samples_r t)" "caught (stt_r t)" "caught (send_r t)"
    "speak_caught t"
    by (simp_all add: raises_only_Exception_def)
  have "fst (transcription_turn t r) = Inr Continue"
    using c(1,2,3) by (rule transcription_turn_returns)
  moreover have "fst (conversation_turn t s) = Inr Continue \<and>
      requests (trace (snd (conversation_turn t s))) =
        requests (trace s) @ [Speech_create reprompt_no_audio]"
    if "failed (samples_r t)"
  proof -
    from that have "no_audio (samples_r t)"
      by (cases "samples_r t") simp_all
    from silent_conversation_turn [OF this c(4), of s] show ?thesis
      by simp
  qed
  moreover have "fst (conversation_turn t s) = Inr Continue \<and>
      requests (trace (snd (conversation_turn t s))) =
        requests (trace s) @
        [Transcriptions_create (the (captured (samples_r t))), Speech_create reprompt_no_text]"
    if "captured (samples_r t) \<noteq> None \<and> failed (stt_r t)"
  proof -
    from that obtain w where w: "captured (samples_r t) = Some w" and "failed (stt_r t)"
      by auto
    then have "no_text (stt_r t)"
      by (cases "stt_r t") simp_all
    from untranscribed_conversation_turn [OF w this c(4), of s] w show ?thesis
      by simp
  qed
  moreover have "requests (trace (snd (conversation_turn t s))) =
        requests (trace s) @
        [Transcriptions_create (the (captured (samples_r t))),
         Chat_create ((System, system_prompt s) #
           conversation_history s @ [(User, the (heard (stt_r t)))]),
         Speech_create apology, Hangup] \<and>
      (hangup_r t = Ok () \<longrightarrow> fst (conversation_turn t s) = Inr Break)"
    if "captured (samples_r t) \<noteq> None \<and> heard (stt_r t) \<noteq> None \<and> generation_failed (gen_r t)"
  proof -
    from that obtain w where w: "captured (samples_r t) = Some w"
      and g: "generation_failed (gen_r t)" and h: "heard (stt_r t) \<noteq> None"
      by auto
    from h obtain said where said: "stt_r t = Ok said" "strip said \<noteq> []"
      "heard (stt_r t) = Some (strip said)"
      by (cases "stt_r t") (auto split: if_splits)
    from failed_generation_turn [OF w said(1,2) g c(4), of s] w said(3) show ?thesis
      by simp
  qed
  ultimately show ?thesis
    using conversation_turn_returns [OF assms(1), of s]
      conversation_loop_never_crashes [OF assms(2), of s]
      transcription_loop_never_crashes [OF assms(2), of r]
    by blast
qed

theorem turn_failures_are_caught_witness:
  "raises_only_Exception recorder_down \<and> raises_only_Exception stt_down \<and>
   raises_only_Exception gen_down \<and> raises_only_Exception tts_down \<and>
   raises_only_Exception hangup_fails \<and> raises_only_Exception quiet \<and>
   failed (samples_r recorder_down) \<and>
   captured (samples_r stt_down) \<noteq> None \<and> failed (stt_r stt_down) \<and>
   captured (samples_r gen_down) \<noteq> None \<and> heard (stt_r gen_down) \<noteq> None \<and>
   generation_failed (gen_r gen_down) \<and> hangup_r gen_down = Ok () \<and>
   fst (conversation_turn recorder_down call0) = Inr Continue \<and>
   requests (trace (snd (conversation_turn recorder_down call0))) =
     [Speech_create reprompt_no_audio] \<and>
   fst (conversation_turn stt_down call0) = Inr Continue \<and>
   requests (trace (snd (conversation_turn stt_down call0))) =
     [Transcriptions_create (Wav [1, 2]), Speech_create reprompt_no_text] \<and>
   requests (trace (snd (conversation_turn gen_down call0))) =
     [Transcriptions_create (Wav [1, 2]),
      Chat_create [(System, system_prompt call0), (User, py ''Hallo'')],
      Speech_create apology, Hangup] \<and>
   fst (conversation_turn gen_down call0) = Inr Break \<and>
   fst (transcription_turn gen_down monitor0) = Inr Continue \<and>
   fst (conversation_loop [stt_down, tts_down, hangup_fails, gen_down, quiet] call0) = Exited \<and>
   fst (transcription_loop [stt_down, tts_down, hangup_fails, gen_down, quiet] monitor0) = Running"
proof -
  have h: "raises_only_Exception recorder_down" "raises_only_Exception stt_down"
    "raises_only_Exception gen_down" "raises_only_Exception tts_down"
    "raises_only_Exception hangup_fails" "raises_only_Exception quiet"
    "failed (samples_r recorder_down)"
    "captured (samples_r stt_down) = Some (Wav [1, 2])" "failed (stt_r stt_down)"
    "captured (samples_r gen_down) = Some (Wav [1, 2])"
    "heard (stt_r gen_down) = Some (py ''Hallo'')"
    "generation_failed (gen_r gen_down)" "hangup_r gen_down = Ok ()"
    "requests (trace call0) = []" "conversation_history call0 = []"
    by (simp_all add: scenario_defs vocabulary_defs string_defs)
  have "fst (conversation_loop [stt_down, tts_down, hangup_fails, gen_down, quiet] call0) \<noteq> Running"
    by (simp add: scenario_defs agent_defs string_defs)
  moreover have
    "fst (transcription_loop [stt_down, tts_down, hangup_fails, gen_down, quiet] monitor0) \<noteq> Exited"
    by (simp add: scenario_defs transcription_defs and_then_def string_defs)
  ultimately show ?thesis
    using h
      turn_failures_are_caught
        [of recorder_down "[stt_down, tts_down, hangup_fails, gen_down, quiet]" call0 monitor0]
      turn_failures_are_caught [of stt_down "[]" call0 monitor0]
      turn_failures_are_caught [of gen_down "[]" call0 monitor0]
    by simp
qed

text \<open>
  C3. When the text of the generation service contains the marker \<^verbatim>\<open>[ENDE]\<close>, the
  planner decides to end the call (\<open>marker_ends_call\<close>), but the text it returns can
  still contain the marker: \<^verbatim>\<open>replace\<close> makes one pass, and removing the inner marker
  of \<^verbatim>\<open>[EN[ENDE]DE]\<close> leaves \<^verbatim>\<open>[ENDE]\<close>, which is then spoken.
\<close>

theorem nested_marker_is_returned:
  "contains sentinel (py ''Auf Wiederhoeren. [EN[ENDE]DE]'') \<and>
   fst (generate_response nested_marker call0) = Inr (py ''Auf Wiederhoeren. [ENDE]'', True) \<and>
   contains sentinel (py ''Auf Wiederhoeren. [ENDE]'')"
  by (simp add: generate_response_def scenario_defs string_defs)

text \<open>
  C4. When the generation fails, the planner returns the fixed apology and the decision
  to end the call, whatever the failure, the history and the state of the call; the
  generation service is asked once and not again.
\<close>

theorem generation_failure_fallback:
  assumes "generation_failed (gen_r t)"
  shows "fst (generate_response t s) = Inr (apology, True) \<and>
         requests (trace (snd (generate_response t s))) =
           requests (trace s) @ [Chat_create ((System, system_prompt s) # conversation_history s)] \<and>
         conversation_history (snd (generate_response t s)) = conversation_history s"
  using generate_fallback [OF assms, of s] by simp

theorem generation_failure_fallback_witness:
  "generation_failed (gen_r gen_down) \<and>
   fst (generate_response gen_down call0) = Inr (apology, True) \<and>
   requests (trace (snd (generate_response gen_down call0))) =
     [Chat_create [(System, system_prompt call0)]]"
  using generation_failure_fallback [of gen_down call0]
  by (simp add: scenario_defs)

text \<open>
  C5 (as amended). A transcription that fails is not retried: in every iteration in
  which speech is captured and the transcription fails, the service is asked once, the
  second re-prompt is spoken, and the loop goes on to the next capture with the history
  unchanged. However many such iterations follow one another, the loop keeps running.
\<close>

theorem failed_transcription_reprompts:
  assumes "\<forall>t \<in> set ts. transcription_fails t" and "is_active s"
  shows "fst (conversation_loop ts s) = Running \<and>
         conversation_history (snd (conversation_loop ts s)) = conversation_history s \<and>
         requests (trace (snd (conversation_loop ts s))) =
           requests (trace s) @
           concat (map (\<lambda>t. [Transcriptions_create (the (captured (samples_r t))),
                              Speech_create reprompt_no_text]) ts)"
  using assms by (rule untranscribed_conversation_loop)

theorem failed_transcription_reprompts_witness:
  "transcription_fails stt_down \<and> is_active call0 \<and>
   fst (conversation_loop [stt_down, stt_down, stt_down] call0) = Running \<and>
   requests (trace (snd (conversation_loop [stt_down, stt_down, stt_down] call0))) =
     [Transcriptions_create (Wav [1, 2]), Speech_create reprompt_no_text,
      Transcriptions_create (Wav [1, 2]), Speech_create reprompt_no_text,
      Transcriptions_create (Wav [1, 2]), Speech_create reprompt_no_text]"
  using failed_transcription_reprompts [of "[stt_down, stt_down, stt_down]" call0]
  by (simp add: scenario_defs vocabulary_defs)

text \<open>
  C5 as stated fails: after two failed transcriptions in a row the loop has not left the
  \<^verbatim>\<open>while\<close>; it has asked for each window once and spoken the re-prompt twice.
\<close>

theorem second_transcription_failure_keeps_loop:
  "fst (conversation_loop [stt_down, stt_down] call0) = Running \<and>
   requests (trace (snd (conversation_loop [stt_down, stt_down] call0))) =
     [Transcriptions_create (Wav [1, 2]), Speech_create reprompt_no_text,
      Transcriptions_create (Wav [1, 2]), Speech_create reprompt_no_text]"
  using untranscribed_conversation_loop [of "[stt_down, stt_down]" call0]
  by (simp add: scenario_defs vocabulary_defs)

text \<open>
  C6 (as amended). There is no threshold and no counter: every empty capture is answered
  with the first re-prompt, so a run of silent iterations asks for as many re-prompts as
  it has iterations, and for nothing else.
\<close>

theorem every_silence_reprompts:
  assumes "\<forall>t \<in> set ts. silent t" and "is_active s"
  shows "requests (trace (snd (conversation_loop ts s))) =
           requests (trace s) @ replicate (length ts) (Speech_create reprompt_no_audio)"
  using silent_conversation_loop [OF assms] by simp

theorem every_silence_reprompts_witness:
  "silent quiet \<and> is_active call0 \<and>
   requests (trace (snd (conversation_loop [quiet, quiet, quiet] call0))) =
     [Speech_create reprompt_no_audio, Speech_create reprompt_no_audio,
      Speech_create reprompt_no_audio]"
  using every_silence_reprompts [of "[quiet, quiet, quiet]" call0]
  by (simp add: scenario_defs vocabulary_defs)

text \<open>C6 as stated fails: two empty captures in a row are answered with two re-prompts.\<close>

theorem two_silences_two_reprompts:
  "requests (trace (snd (conversation_loop [quiet, quiet] call0))) =
     [Speech_create reprompt_no_audio, Speech_create reprompt_no_audio]"
  using silent_conversation_loop [of "[quiet, quiet]" call0]
  by (simp add: scenario_defs vocabulary_defs)

text \<open>
  C7. Silence alone never ends a loop: after any number of iterations in which nothing
  is captured, both loops are about to start the next iteration, the flags are still
  set, and the agent has not hung up.
\<close>

theorem silence_never_closes:
  assumes "\<forall>t \<in> set ts. silent t" and "is_active s" and "is_recording r"
  shows "fst (conversation_loop ts s) = Running \<and>
         is_active (snd (conversation_loop ts s)) \<and>
         count_list (trace (snd (conversation_loop ts s))) Hangup = count_list (trace s) Hangup \<and>
         fst (transcription_loop ts r) = Running \<and>
         is_recording (snd (transcription_loop ts r))"
proof -
  have "count_list (requests (trace (snd (conversation_loop ts s)))) Hangup =
        count_list (requests (trace s)) Hangup"
    using silent_conversation_loop [OF assms(1,2)] by (simp add: count_list_replicate)
  then have "count_list (trace (snd (conversation_loop ts s))) Hangup = count_list (trace s) Hangup"
    by (simp add: count_list_requests)
  moreover from assms(1) have "\<forall>t \<in> set ts. no_audio (samples_r t) \<and> disc t = None"
    by (simp add: silent_def)
  ultimately show ?thesis
    using silent_conversation_loop [OF assms(1,2)] silent_transcription_loop [OF _ assms(3)]
    by simp
qed

theorem silence_never_closes_witness:
  "silent quiet \<and> silent tts_down \<and> is_active call0 \<and> is_recording monitor0 \<and>
   fst (conversation_loop [quiet, tts_down, quiet, quiet] call0) = Running \<and>
   is_active (snd (conversation_loop [quiet, tts_down, quiet, quiet] call0)) \<and>
   count_list (trace (snd (conversation_loop [quiet, tts_down, quiet, quiet] call0))) Hangup = 0 \<and>
   fst (transcription_loop [quiet, tts_down, quiet, quiet] monitor0) = Running \<and>
   is_recording (snd (transcription_loop [quiet, tts_down, quiet, quiet] monitor0))"
  using silence_never_closes [of "[quiet, tts_down, quiet, quiet]" call0 monitor0]
  by (simp add: scenario_defs vocabulary_defs)

text \<open>
  C8. After starting the player, \<^verbatim>\<open>_speak\<close> waits 100 ms for each character of the
  text, whatever audio the synthesis returned, and then returns; nothing reports the
  end of the playback.
\<close>

theorem playback_wait_is_text_length:
  "trace (snd (speak (quiet\<lparr>tts_r := Ok audio_data\<rparr>) text call0)) =
     [Speech_create text, Tmp_write audio_data, Start_player, Sleep (length text * 100), Unlink]"
  by (simp add: scenario_defs speak_defs)

text \<open>
  C9 (as amended). In transcription mode, when speech is captured and its transcription,
  stripped, is "Hallo", the iteration pushes to the sink once, and the push carries the
  text alone; if the call is still up and the push raises at most an \<^verbatim>\<open>Exception\<close>,
  the loop goes on with the next capture.
\<close>

theorem transcript_pushed_once:
  assumes "captured (samples_r t) = Some w" and "stt_r t = Ok text"
    and "strip text = py ''Hallo''"
  shows "requests (trace (snd (transcription_turn t r))) =
           requests (trace r) @ [Transcriptions_create w, Send_transcript [Text_arg (py ''Hallo'')]] \<and>
         (is_recording r \<and> disc t = None \<and> caught (send_r t) \<longrightarrow>
            is_recording (snd (transcription_turn t r)) \<and>
            transcription_loop (t # ts) r = transcription_loop ts (snd (transcription_turn t r)))"
proof -
  from assms(3) have ne: "strip text \<noteq> []"
    by (simp add: py_def)
  obtain c r1 where turn: "transcription_turn t r = (c, r1)"
    by (cases "transcription_turn t r")
  from pushed_transcription_turn [OF assms(1,2) ne, of r] turn assms(3)
  show ?thesis by auto
qed

theorem transcript_pushed_once_witness:
  "captured (samples_r hallo) = Some (Wav [1, 2]) \<and> stt_r hallo = Ok (py ''Hallo '') \<and>
   strip (py ''Hallo '') = py ''Hallo'' \<and>
   is_recording monitor0 \<and> disc hallo = None \<and> caught (send_r hallo) \<and>
   requests (trace (snd (transcription_turn hallo monitor0))) =
     [Transcriptions_create (Wav [1, 2]), Send_transcript [Text_arg (py ''Hallo'')]] \<and>
   transcription_loop [hallo, quiet] monitor0 =
     transcription_loop [quiet] (snd (transcription_turn hallo monitor0))"
proof -
  have "captured (samples_r hallo) = Some (Wav [1, 2])" "stt_r hallo = Ok (py ''Hallo '')"
    "strip (py ''Hallo '') = py ''Hallo''" "is_recording monitor0" "disc hallo = None"
    "caught (send_r hallo)" "requests (trace monitor0) = []"
    by (simp_all add: scenario_defs string_defs)
  with transcript_pushed_once [of hallo "Wav [1, 2]" "py ''Hallo ''" monitor0 "[quiet]"]
  show ?thesis by simp
qed

text \<open>
  C9 as stated fails: what the sink is given is the text and nothing else, neither a
  call handle nor a timestamp.
\<close>

theorem push_carries_text_only:
  "trace (snd (transcription_loop [hallo] monitor0)) =
     [Transcriptions_create (Wav [1, 2]), Send_transcript [Text_arg (py ''Hallo'')]]"
  by (simp add: scenario_defs transcription_defs and_then_def string_defs)

text \<open>
  C10. When speech is captured and the text of its transcription is blank, the agent
  has the second re-prompt spoken and does nothing else: the history is as before, the
  generation service is not asked, and the one synthesis asked for is the re-prompt's;
  when the synthesis, the temporary file and the player work, the re-prompt is played,
  and the iteration is the capture, the transcription, and the re-prompt synthesized,
  written, played and waited for. The monitor pushes nothing to the sink. Both loops go
  on to the next capture.
\<close>

theorem blank_transcript_is_no_speech:
  assumes "captured (samples_r t) = Some w" and "stt_r t = Ok text" and "strip text = []"
  shows "conversation_history (snd (conversation_turn t s)) = conversation_history s \<and>
         requests (trace (snd (conversation_turn t s))) =
           requests (trace s) @ [Transcriptions_create w, Speech_create reprompt_no_text] \<and>
         (speak_caught t \<longrightarrow> fst (conversation_turn t s) = Inr Continue) \<and>
         (tts_r t = Ok audio_data \<and> tmp_r t = Ok () \<and> play_r t = Ok () \<and>
          unlink_r t = Ok () \<and> player s \<longrightarrow>
            without_callback (trace (snd (conversation_turn t s))) =
              without_callback (trace s) @
              [Sleep 10000, Transcriptions_create w, Speech_create reprompt_no_text,
               Tmp_write audio_data, Start_player, Sleep (length reprompt_no_text * 100),
               Unlink]) \<and>
         requests (trace (snd (transcription_turn t r))) =
           requests (trace r) @ [Transcriptions_create w] \<and>
         fst (transcription_turn t r) = Inr Continue"
proof -
  from assms(2,3) have nt: "no_text (stt_r t)"
    by simp
  have "speak_caught t \<longrightarrow> fst (conversation_turn t s) = Inr Continue"
    using untranscribed_conversation_turn [OF assms(1) nt, of s] by simp
  moreover have "tts_r t = Ok audio_data \<and> tmp_r t = Ok () \<and> play_r t = Ok () \<and>
      unlink_r t = Ok () \<and> player s \<longrightarrow>
        without_callback (trace (snd (conversation_turn t s))) =
          without_callback (trace s) @
          [Sleep 10000, Transcriptions_create w, Speech_create reprompt_no_text,
           Tmp_write audio_data, Start_player, Sleep (length reprompt_no_text * 100), Unlink]"
    using blank_turn_plays [OF assms, where audio_data = audio_data and s = s] by blast
  ultimately show ?thesis
    using blank_transcription_turn [OF assms, of r]
    by (simp add: conversation_turn_after_body untranscribed_body_state [OF assms(1) nt])
qed

theorem blank_transcript_is_no_speech_witness:
  "captured (samples_r blank) = Some (Wav [1, 2]) \<and> stt_r blank = Ok (py ''  '') \<and>
   strip (py ''  '') = [] \<and> speak_caught blank \<and>
   tts_r blank = Ok [3, 4] \<and> tmp_r blank = Ok () \<and> play_r blank = Ok () \<and>
   unlink_r blank = Ok () \<and> player call0 \<and>
   conversation_history (snd (conversation_turn blank call0)) = [] \<and>
   requests (trace (snd (conversation_turn blank call0))) =
     [Transcriptions_create (Wav [1, 2]), Speech_create reprompt_no_text] \<and>
   fst (conversation_turn blank call0) = Inr Continue \<and>
   without_callback (trace (snd (conversation_turn blank call0))) =
     [Sleep 10000, Transcriptions_create (Wav [1, 2]), Speech_create reprompt_no_text,
      Tmp_write [3, 4], Start_player, Sleep 4600, Unlink] \<and>
   requests (trace (snd (transcription_turn blank monitor0))) =
     [Transcriptions_create (Wav [1, 2])]"
proof -
  have window: "captured (samples_r blank) = Some (Wav [1, 2])"
    and reply: "stt_r blank = Ok (py ''  '')"
    and stripped: "strip (py ''  '') = []"
    by (simp_all add: scenario_defs string_defs)
  have "speak_caught blank" "conversation_history call0 = []"
    "requests (trace call0) = []" "requests (trace monitor0) = []"
    "tts_r blank = Ok [3, 4]" "tmp_r blank = Ok ()" "play_r blank = Ok ()"
    "unlink_r blank = Ok ()" "player call0" "without_callback (trace call0) = []"
    "length reprompt_no_text * 100 = 4600"
    by (simp_all add: scenario_defs string_defs vocabulary_defs reprompt_no_text_def)
  with window reply stripped
    blank_transcript_is_no_speech
      [OF window reply stripped, where audio_data = "[3, 4]" and s = call0 and r = monitor0]
  show ?thesis by simp
qed

end
